theory Spec2Isabelle
  imports Complex_Main
begin

section \<open>JavaScript values and strings\<close>

text \<open>
  A JavaScript string is a sequence of UTF-16 code units; a code unit is modelled as a
  natural number. \<open>js\<close> turns an ASCII literal into such a sequence. The case mappings
  are the runtime's for U+0000..U+00FF; a code unit beyond that range is left as it is.

  A number computed by the program is modelled as a real: the rounding of IEEE doubles,
  NaN and the infinities are outside the model. The values that cells and records hold
  are null, undefined, strings and integral numbers (the numbers the program itself
  stores in a cell are results of \<open>Math.round\<close>); \<open>String\<close> of an integer is its decimal
  numeral, as the runtime prints it below \<open>10^21\<close>.
\<close>

type_synonym jsstring = "nat list"

abbreviation js :: "string \<Rightarrow> jsstring" where
  "js s \<equiv> map of_char s"

datatype jsval = JNull | JUndefined | JStr jsstring | JNum int

fun digits_of :: "nat \<Rightarrow> jsstring" where
  "digits_of n = (if n < 10 then [48 + n] else digits_of (n div 10) @ [48 + n mod 10])"

text \<open>\<open>String(v)\<close>.\<close>

fun toStr :: "jsval \<Rightarrow> jsstring" where
  "toStr JNull = js ''null''"
| "toStr JUndefined = js ''undefined''"
| "toStr (JStr s) = s"
| "toStr (JNum n) = (if n < 0 then 45 # digits_of (nat (- n)) else digits_of (nat n))"

text \<open>Truthiness, as \<open>!v\<close>, \<open>v || d\<close> and \<open>if (v)\<close> read it.\<close>

fun truthy :: "jsval \<Rightarrow> bool" where
  "truthy JNull = False"
| "truthy JUndefined = False"
| "truthy (JStr s) = (s \<noteq> [])"
| "truthy (JNum x) = (x \<noteq> 0)"

text \<open>\<open>v || ''\<close>.\<close>

definition or_empty :: "jsval \<Rightarrow> jsval" where
  "or_empty v = (if truthy v then v else JStr [])"

text \<open>\<open>v == null\<close>: null or undefined.\<close>

definition is_nullish :: "jsval \<Rightarrow> bool" where
  "is_nullish v = (v = JNull \<or> v = JUndefined)"

subsection \<open>Character classes\<close>

text \<open>
  \<open>\s\<close> and \<open>trim\<close>: the white space and line terminator code units of ECMAScript.
\<close>

definition is_space :: "nat \<Rightarrow> bool" where
  "is_space c = (c \<in> {9, 10, 11, 12, 13, 32, 160, 5760, 8232, 8233, 8239, 8287, 12288, 65279}
     \<or> (8192 \<le> c \<and> c \<le> 8202))"

text \<open>\<open>\d\<close>.\<close>

definition is_digit :: "nat \<Rightarrow> bool" where
  "is_digit c = (48 \<le> c \<and> c \<le> 57)"

text \<open>\<open>\w\<close>: \<open>[A-Za-z0-9_]\<close>.\<close>

definition is_word :: "nat \<Rightarrow> bool" where
  "is_word c = ((65 \<le> c \<and> c \<le> 90) \<or> (97 \<le> c \<and> c \<le> 122) \<or> is_digit c \<or> c = 95)"

text \<open>\<open>[a-z]\<close>.\<close>

definition is_az :: "nat \<Rightarrow> bool" where
  "is_az c = (97 \<le> c \<and> c \<le> 122)"

subsection \<open>String methods\<close>

definition trim :: "jsstring \<Rightarrow> jsstring" where
  "trim s = rev (dropWhile is_space (rev (dropWhile is_space s)))"

definition lower_unit :: "nat \<Rightarrow> nat" where
  "lower_unit c =
     (if 65 \<le> c \<and> c \<le> 90 then c + 32
      else if 192 \<le> c \<and> c \<le> 222 \<and> c \<noteq> 215 then c + 32
      else c)"

definition toLowerCase :: "jsstring \<Rightarrow> jsstring" where
  "toLowerCase s = map lower_unit s"

text \<open>
  Upper-casing can change the length: U+00DF becomes \<open>SS\<close>. U+00B5 becomes U+039C and
  U+00FF becomes U+0178.
\<close>

definition upper_unit :: "nat \<Rightarrow> jsstring" where
  "upper_unit c =
     (if 97 \<le> c \<and> c \<le> 122 then [c - 32]
      else if c = 181 then [924]
      else if c = 223 then [83, 83]
      else if 224 \<le> c \<and> c \<le> 254 \<and> c \<noteq> 247 then [c - 32]
      else if c = 255 then [376]
      else [c])"

definition toUpperCase :: "jsstring \<Rightarrow> jsstring" where
  "toUpperCase s = concat (map upper_unit s)"

definition startsWith :: "jsstring \<Rightarrow> jsstring \<Rightarrow> bool" where
  "startsWith s w = (take (length w) s = w)"

definition endsWith :: "jsstring \<Rightarrow> jsstring \<Rightarrow> bool" where
  "endsWith s w = (length w \<le> length s \<and> drop (length s - length w) s = w)"

text \<open>\<open>s.replace(a, b)\<close> with one-unit strings \<open>a\<close> and \<open>b\<close>: the first occurrence only.\<close>

fun replace_first :: "nat \<Rightarrow> nat \<Rightarrow> jsstring \<Rightarrow> jsstring" where
  "replace_first a b [] = []"
| "replace_first a b (c # cs) = (if c = a then b # cs else c # replace_first a b cs)"

text \<open>\<open>s.replace(/\s+/g, '')\<close>.\<close>

definition strip_spaces :: "jsstring \<Rightarrow> jsstring" where
  "strip_spaces s = filter (\<lambda>c. \<not> is_space c) s"

text \<open>\<open>s.replace(/\s+/g, ' ')\<close>: every maximal run of white space becomes one space.\<close>

function collapse_spaces :: "jsstring \<Rightarrow> jsstring" where
  "collapse_spaces [] = []"
| "collapse_spaces (c # cs) =
     (if is_space c then 32 # collapse_spaces (dropWhile is_space cs)
      else c # collapse_spaces cs)"
  by pat_completeness auto
termination
  by (relation "measure length") (auto simp: less_Suc_eq_le length_dropWhile_le)

subsection \<open>Regular expressions\<close>

text \<open>
  \<open>re.test(s)\<close> for an unanchored pattern: the pattern, given as a predicate on the text
  before a position and the text from it, holds at some position of \<open>s\<close>.
\<close>

definition regex_test :: "(jsstring \<Rightarrow> jsstring \<Rightarrow> bool) \<Rightarrow> jsstring \<Rightarrow> bool" where
  "regex_test p s = list_ex (\<lambda>i. p (take i s) (drop i s)) [0..<Suc (length s)]"

text \<open>A literal pattern such as \<open>/mg/\<close>.\<close>

definition re_lit :: "jsstring \<Rightarrow> jsstring \<Rightarrow> jsstring \<Rightarrow> bool" where
  "re_lit w pre rest = startsWith rest w"

definition contains :: "jsstring \<Rightarrow> jsstring \<Rightarrow> bool" where
  "contains s w = regex_test (re_lit w) s"

text \<open>\<open>\b\<close> between the text \<open>pre\<close> and the text \<open>rest\<close>.\<close>

definition word_boundary :: "jsstring \<Rightarrow> jsstring \<Rightarrow> bool" where
  "word_boundary pre rest =
     ((pre \<noteq> [] \<and> is_word (last pre)) \<noteq> (rest \<noteq> [] \<and> is_word (hd rest)))"

text \<open>\<open>/[^k]g/\<close>.\<close>

fun re_not_k_g :: "jsstring \<Rightarrow> jsstring \<Rightarrow> bool" where
  "re_not_k_g pre (c # d # rest) = (c \<noteq> 107 \<and> d = 103)"
| "re_not_k_g pre rest = False"

text \<open>\<open>/\bt\b/\<close>.\<close>

fun re_t_word :: "jsstring \<Rightarrow> jsstring \<Rightarrow> bool" where
  "re_t_word pre (c # rest) =
     (word_boundary pre (c # rest) \<and> c = 116 \<and> word_boundary (pre @ [c]) rest)"
| "re_t_word pre [] = False"

text \<open>\<open>/[^a-z]cm\b/\<close>.\<close>

fun re_cm :: "jsstring \<Rightarrow> jsstring \<Rightarrow> bool" where
  "re_cm pre (a # c # m # rest) =
     (\<not> is_az a \<and> c = 99 \<and> m = 109 \<and> word_boundary (pre @ [a, c, m]) rest)"
| "re_cm pre rest = False"

text \<open>\<open>/[^a-z]m\b/\<close>.\<close>

fun re_m :: "jsstring \<Rightarrow> jsstring \<Rightarrow> bool" where
  "re_m pre (a # m # rest) =
     (\<not> is_az a \<and> m = 109 \<and> word_boundary (pre @ [a, m]) rest)"
| "re_m pre rest = False"

text \<open>
  \<open>/-?\d+(?:\.\d+)?/\<close> anchored at the start of the text: the token matched and the text
  after it. Every quantifier is greedy; the fraction is taken only when a digit follows
  the point, and a minus sign with no digit after it matches nothing.
\<close>

definition unsigned_at :: "jsstring \<Rightarrow> (jsstring \<times> jsstring) option" where
  "unsigned_at s =
     (let ds = takeWhile is_digit s; r = dropWhile is_digit s in
      if ds = [] then None
      else if startsWith r [46] \<and> takeWhile is_digit (tl r) \<noteq> []
        then Some (ds @ 46 # takeWhile is_digit (tl r), dropWhile is_digit (tl r))
        else Some (ds, r))"

definition number_at :: "jsstring \<Rightarrow> (jsstring \<times> jsstring) option" where
  "number_at s =
     (if startsWith s [45]
      then (case unsigned_at (tl s) of None \<Rightarrow> None | Some (m, r) \<Rightarrow> Some (45 # m, r))
      else unsigned_at s)"

text \<open>\<open>s.match(/-?\d+(?:\.\d+)?/)\<close>: the leftmost match, with the text after it.\<close>

fun first_number :: "jsstring \<Rightarrow> (jsstring \<times> jsstring) option" where
  "first_number [] = None"
| "first_number (c # cs) =
     (case number_at (c # cs) of None \<Rightarrow> first_number cs | Some m \<Rightarrow> Some m)"

lemma unsigned_at_shorter: "unsigned_at s = Some (m, r) \<Longrightarrow> length r < length s"
proof -
  assume a: "unsigned_at s = Some (m, r)"
  have nonempty: "takeWhile is_digit s \<noteq> []"
    using a by (auto simp: unsigned_at_def Let_def split: if_splits)
  have "length (takeWhile is_digit s) + length (dropWhile is_digit s) = length s"
    by (metis length_append takeWhile_dropWhile_id)
  with nonempty have lt: "length (dropWhile is_digit s) < length s"
    by (cases "takeWhile is_digit s") auto
  have "length (dropWhile is_digit (tl (dropWhile is_digit s))) \<le> length (dropWhile is_digit s)"
    by (metis diff_le_self dual_order.trans length_dropWhile_le length_tl)
  with a lt show ?thesis
    by (auto simp: unsigned_at_def Let_def split: if_splits)
qed

lemma number_at_shorter: "number_at s = Some (m, r) \<Longrightarrow> length r < length s"
proof (cases "startsWith s [45]")
  case True
  assume a: "number_at s = Some (m, r)"
  from True a obtain m' where "unsigned_at (tl s) = Some (m', r)"
    by (auto simp: number_at_def split: option.splits)
  then have "length r < length (tl s)"
    by (rule unsigned_at_shorter)
  then show ?thesis by simp
next
  case False
  assume "number_at s = Some (m, r)"
  with False show ?thesis
    by (simp add: number_at_def unsigned_at_shorter)
qed

lemma first_number_shorter: "first_number s = Some (m, r) \<Longrightarrow> length r < length s"
proof (induction s)
  case Nil
  then show ?case by simp
next
  case (Cons c cs)
  then show ?case
    by (cases "number_at (c # cs)") (auto dest: number_at_shorter)
qed

text \<open>\<open>s.match(/-?\d+(?:\.\d+)?/g)\<close>: each search starts where the last match ended.\<close>

function all_numbers :: "jsstring \<Rightarrow> jsstring list" where
  "all_numbers s =
     (case first_number s of None \<Rightarrow> [] | Some (m, r) \<Rightarrow> m # all_numbers r)"
  by pat_completeness auto
termination
  by (relation "measure length") (auto dest: first_number_shorter)

text \<open>
  \<open>parseFloat\<close> on a token of the pattern above: the decimal number it denotes.
\<close>

definition digits_val :: "jsstring \<Rightarrow> nat" where
  "digits_val ds = foldl (\<lambda>a c. 10 * a + (c - 48)) 0 ds"

definition parseFloat :: "jsstring \<Rightarrow> real" where
  "parseFloat t =
     (let neg = startsWith t [45];
          u = (if neg then tl t else t);
          ip = takeWhile is_digit u;
          r = dropWhile is_digit u;
          fp = (if startsWith r [46] then takeWhile is_digit (tl r) else []);
          v = real (digits_val ip) + real (digits_val fp) / 10 ^ length fp
      in if neg then - v else v)"

text \<open>\<open>Math.round\<close>: the nearest integer, a half rounded up.\<close>

definition Math_round :: "real \<Rightarrow> int" where
  "Math_round x = \<lfloor>x + 1 / 2\<rfloor>"

section \<open>utils.js\<close>

definition cleanNumberString :: "jsval \<Rightarrow> jsstring option" where
  "cleanNumberString s =
     (if is_nullish s then None
      else Some (replace_first 44 46 (strip_spaces (toStr s))))"

text \<open>
  After the guard \<open>val == null\<close> the helper \<open>cleanNumberString\<close> always returns a
  string, so its \<open>None\<close> branch below is never taken.
\<close>

definition toNumber :: "jsval \<Rightarrow> real option" where
  "toNumber val =
     (if is_nullish val \<or> val = JStr [] then None
      else case cleanNumberString val of
        None \<Rightarrow> None
      | Some s \<Rightarrow>
          (case first_number s of
             None \<Rightarrow> None
           | Some (m, r) \<Rightarrow> Some (parseFloat m)))"

definition normalizeWeightToKg :: "jsval \<Rightarrow> real option" where
  "normalizeWeightToKg v =
     (if is_nullish v \<or> v = JStr [] then None
      else case cleanNumberString v of
        None \<Rightarrow> None
      | Some c \<Rightarrow>
          (let s = toLowerCase c in
           case first_number s of
             None \<Rightarrow> None
           | Some (m, r) \<Rightarrow>
               (let num = parseFloat m in
                if regex_test (re_lit (js ''mg'')) s then Some (num / 1000000)
                else if regex_test re_not_k_g s \<and> \<not> regex_test (re_lit (js ''kg'')) s
                  then Some (num / 1000)
                else if regex_test (re_lit (js ''kg'')) s then Some num
                else if regex_test re_t_word s then Some (num * 1000)
                else Some num)))"

record LBH =
  L :: "int option"
  B :: "int option"
  H :: "int option"

text \<open>\<open>s.replace(/[\<times>x]/g, 'x')\<close>: the multiplication sign is U+00D7.\<close>

definition unify_separators :: "jsstring \<Rightarrow> jsstring" where
  "unify_separators s = map (\<lambda>c. if c = 215 \<or> c = 120 then 120 else c) s"

definition parseDimensionsToLBH :: "jsval \<Rightarrow> LBH" where
  "parseDimensionsToLBH text =
     (if \<not> truthy text then \<lparr>L = None, B = None, H = None\<rparr>
      else
        let raw = trim (toStr text);
            s = strip_spaces (replace_first 44 46 (unify_separators (toLowerCase raw)));
            scale0 = (if regex_test re_cm s \<or> endsWith s (js ''cm'') then 10 else 1);
            scale = (if regex_test re_m s \<or> endsWith s (js ''m'') then 1000 else scale0);
            nums = map parseFloat (all_numbers s)
        in \<lparr>L = (if length nums > 0 then Some (Math_round (nums ! 0 * scale)) else None),
            B = (if length nums > 1 then Some (Math_round (nums ! 1 * scale)) else None),
            H = (if length nums > 2 then Some (Math_round (nums ! 2 * scale)) else None)\<rparr>)"

text \<open>\<open>s.replace(/[\s\-\/_]+/g, '')\<close>.\<close>

definition is_separator :: "nat \<Rightarrow> bool" where
  "is_separator c = (is_space c \<or> c = 45 \<or> c = 47 \<or> c = 95)"

definition normPartNo :: "jsval \<Rightarrow> jsstring" where
  "normPartNo s =
     (if \<not> truthy s then []
      else filter (\<lambda>c. \<not> is_separator c) (toUpperCase (toStr s)))"

text \<open>
  An operand is \<open>None\<close> when it is null or undefined. The tolerance is \<open>None\<close> when it
  is undefined, null or NaN, the values besides 0 that \<open>!tolPct\<close> accepts.
\<close>

definition withinToleranceKG :: "real option \<Rightarrow> real option \<Rightarrow> real option \<Rightarrow> bool" where
  "withinToleranceKG exKg wbKg tolPct =
     (case (exKg, wbKg) of
        (Some e, Some w) \<Rightarrow>
          (let diff = \<bar>e - w\<bar> in
           case tolPct of
             None \<Rightarrow> diff < 1 / 10 ^ 9
           | Some t \<Rightarrow>
               if t = 0 \<or> t \<le> 0 then diff < 1 / 10 ^ 9
               else diff \<le> \<bar>e\<bar> * (t / 100))
      | _ \<Rightarrow> False)"

text \<open>The sharp s of \<open>/schwei|schwei\<ss>|schweiss/\<close> is U+00DF.\<close>

definition mapMaterialClassificationToExcel :: "jsval \<Rightarrow> jsstring" where
  "mapMaterialClassificationToExcel text =
     (if \<not> truthy text then []
      else
        let s = toLowerCase (toStr text);
            hasNicht = regex_test (re_lit (js ''nicht'')) s;
            hasSchweiss = (regex_test (re_lit (js ''schwei'')) s
              \<or> regex_test (re_lit (js ''schwei'' @ [223])) s
              \<or> regex_test (re_lit (js ''schweiss'')) s);
            hasGuss = regex_test (re_lit (js ''guss'')) s;
            hasKlebe = regex_test (re_lit (js ''klebe'')) s;
            hasSchmiede = regex_test (re_lit (js ''schmiede'')) s;
            hasRelevant = regex_test (re_lit (js ''relev'')) s
        in if hasNicht \<and> (hasSchweiss \<or> hasGuss \<or> hasKlebe \<or> hasSchmiede) \<and> hasRelevant
           then js ''OHNE/N/N/N/N''
           else [])"

section \<open>The comparison functions of the server\<close>

datatype status = GREEN | RED | ORANGE

record verdict =
  status :: status
  comment :: jsstring

definition compareText :: "jsval \<Rightarrow> jsval \<Rightarrow> verdict" where
  "compareText excel web =
     (if \<not> truthy excel \<and> \<not> truthy web
        then \<lparr>status = ORANGE, comment = js ''Beide fehlen''\<rparr>
      else if \<not> truthy excel then \<lparr>status = ORANGE, comment = js ''Excel fehlt''\<rparr>
      else if \<not> truthy web then \<lparr>status = ORANGE, comment = js ''Web fehlt''\<rparr>
      else
        let a = collapse_spaces (toLowerCase (trim (toStr excel)));
            b = collapse_spaces (toLowerCase (trim (toStr web)))
        in if a = b then \<lparr>status = GREEN, comment = js ''identisch''\<rparr>
           else \<lparr>status = RED, comment = js ''abweichend''\<rparr>)"

definition comparePartNo :: "jsval \<Rightarrow> jsval \<Rightarrow> verdict" where
  "comparePartNo excel web =
     (if \<not> truthy excel \<and> \<not> truthy web
        then \<lparr>status = ORANGE, comment = js ''Beide fehlen''\<rparr>
      else if \<not> truthy excel then \<lparr>status = ORANGE, comment = js ''Excel fehlt''\<rparr>
      else if \<not> truthy web then \<lparr>status = ORANGE, comment = js ''Web fehlt''\<rparr>
      else if normPartNo excel = normPartNo web
        then \<lparr>status = GREEN, comment = js ''identisch (normalisiert)''\<rparr>
      else \<lparr>status = RED,
             comment = js ''abweichend: Excel '' @ toStr excel @ js '' vs. Web '' @ toStr web\<rparr>)"

text \<open>
  \<open>compareWeight\<close> reads the configured \<open>WEIGHT_TOL_PCT\<close> and prints numbers with the
  runtime's \<open>toFixed\<close>; both are parameters. The Greek capital delta is U+0394.
\<close>

definition compareWeight ::
  "(real \<Rightarrow> nat \<Rightarrow> jsstring) \<Rightarrow> real option \<Rightarrow> jsval \<Rightarrow> jsval \<Rightarrow> verdict" where
  "compareWeight toFixed WEIGHT_TOL_PCT excelVal webVal =
     (let exKg = normalizeWeightToKg excelVal;
          wbKg = normalizeWeightToKg webVal
      in case (exKg, wbKg) of
           (None, None) \<Rightarrow> \<lparr>status = ORANGE, comment = js ''Beide fehlen''\<rparr>
         | (None, Some w) \<Rightarrow> \<lparr>status = ORANGE, comment = js ''Excel fehlt''\<rparr>
         | (Some e, None) \<Rightarrow> \<lparr>status = ORANGE, comment = js ''Web fehlt/unklar''\<rparr>
         | (Some e, Some w) \<Rightarrow>
             (let ok = withinToleranceKG exKg wbKg WEIGHT_TOL_PCT;
                  diffPct = ((w - e) / max (1 / 10 ^ 9) \<bar>e\<bar>) * 100
              in if ok
                 then \<lparr>status = GREEN, comment = [916, 32] @ toFixed diffPct 1 @ js ''%''\<rparr>
                 else \<lparr>status = RED,
                        comment = js ''Excel '' @ toFixed e 3 @ js '' kg vs. Web '' @ toFixed w 3
                          @ js '' kg ('' @ toFixed diffPct 1 @ js ''%)''\<rparr>))"

text \<open>\<open>!x\<close> for a number or null: null and zero are falsy.\<close>

definition num_truthy :: "'a::zero option \<Rightarrow> bool" where
  "num_truthy x = (case x of None \<Rightarrow> False | Some v \<Rightarrow> v \<noteq> 0)"

text \<open>The local \<open>eq\<close> of \<open>compareDimensions\<close>.\<close>

definition eq_dim :: "real option \<Rightarrow> int option \<Rightarrow> bool" where
  "eq_dim a b =
     (case (a, b) of (Some x, Some y) \<Rightarrow> \<bar>x - of_int y\<bar> < 1 / 10 ^ 6 | _ \<Rightarrow> False)"

text \<open>
  The template pieces \<open>${L||''}\<close>. The Excel side holds any decimal, printed by the
  runtime's number-to-string conversion (a parameter); the web side holds integers.
\<close>

definition show_excel_dim :: "(real \<Rightarrow> jsstring) \<Rightarrow> real option \<Rightarrow> jsstring" where
  "show_excel_dim numToString x = (if num_truthy x then numToString (the x) else [])"

definition show_web_dim :: "int option \<Rightarrow> jsstring" where
  "show_web_dim x = (if num_truthy x then toStr (JNum (the x)) else [])"

definition compareDimensions ::
  "(real \<Rightarrow> jsstring) \<Rightarrow> jsval \<Rightarrow> jsval \<Rightarrow> jsval \<Rightarrow> jsval \<Rightarrow> verdict" where
  "compareDimensions numToString excelU excelV excelW webDimText =
     (let exL = toNumber excelU; exB = toNumber excelV; exH = toNumber excelW;
          fromWeb = parseDimensionsToLBH webDimText;
          anyExcel = (exL \<noteq> None \<or> exB \<noteq> None \<or> exH \<noteq> None);
          noWeb = (\<not> num_truthy (L fromWeb) \<and> \<not> num_truthy (B fromWeb)
                   \<and> \<not> num_truthy (H fromWeb))
      in if \<not> anyExcel \<and> noWeb then \<lparr>status = ORANGE, comment = js ''Beide fehlen''\<rparr>
         else if \<not> anyExcel then \<lparr>status = ORANGE, comment = js ''Excel fehlt''\<rparr>
         else if noWeb then \<lparr>status = ORANGE, comment = js ''Web fehlt/unklar''\<rparr>
         else if eq_dim exL (L fromWeb) \<and> eq_dim exB (B fromWeb) \<and> eq_dim exH (H fromWeb)
           then \<lparr>status = GREEN, comment = [76, 215, 66, 215, 72] @ js '' identisch (mm)''\<rparr>
         else \<lparr>status = RED,
                comment = js ''Excel '' @ show_excel_dim numToString exL @ [215]
                  @ show_excel_dim numToString exB @ [215] @ show_excel_dim numToString exH
                  @ js '' mm vs. Web '' @ show_web_dim (L fromWeb) @ [215]
                  @ show_web_dim (B fromWeb) @ [215] @ show_web_dim (H fromWeb)
                  @ js '' mm''\<rparr>)"

record fill =
  fill_type :: string
  fill_pattern :: string
  fgColor_argb :: string

definition statusCellFill :: "status \<Rightarrow> fill" where
  "statusCellFill st =
     (if st = GREEN
        then \<lparr>fill_type = ''pattern'', fill_pattern = ''solid'', fgColor_argb = ''FFD5F4E6''\<rparr>
      else if st = RED
        then \<lparr>fill_type = ''pattern'', fill_pattern = ''solid'', fgColor_argb = ''FFFDEAEA''\<rparr>
      else \<lparr>fill_type = ''pattern'', fill_pattern = ''solid'', fgColor_argb = ''FFFFF3CD''\<rparr>)"

section \<open>The single-product endpoint\<close>

text \<open>
  \<open>POST /api/scrape\<close>. The scraper is not part of the sources at hand: \<open>scrapeOne\<close> is a
  parameter that returns a record or fails with a message. The endpoint is modelled with
  the list of keys it passed to \<open>scrapeOne\<close>, in order. The argument is the
  \<open>articleNumber\<close> of the request body, \<open>JUndefined\<close> when the body or the field is
  missing.
\<close>

datatype 'r response =
  Status400 jsstring
| Json200 'r
| Status500 jsstring

definition api_scrape ::
  "(jsstring \<Rightarrow> jsstring + 'r) \<Rightarrow> jsval \<Rightarrow> 'r response \<times> jsstring list" where
  "api_scrape scrapeOne articleNumber =
     (let a2v = toUpperCase (trim (toStr (or_empty articleNumber))) in
      if \<not> startsWith a2v (js ''A2V'') then (Status400 (js ''Nur A2V-Nummern erlaubt''), [])
      else case scrapeOne a2v of
             Inr r \<Rightarrow> (Json200 r, [a2v])
           | Inl e \<Rightarrow> (Status500 e, [a2v]))"

section \<open>The worksheet pass of the batch endpoint\<close>

subsection \<open>Worksheets\<close>

text \<open>
  The spreadsheet library is not part of the repository. A worksheet is modelled as the
  list of its rows, row number \<open>r\<close> at position \<open>r - 1\<close>; a row maps a column letter to
  a cell, and a cell that was never written holds null and no fill.
  \<open>ws.lastRow.number\<close> is the length of the list.
\<close>

record cell =
  cval :: jsval
  cfill :: "fill option"

definition blank_cell :: cell where
  "blank_cell = \<lparr>cval = JNull, cfill = None\<rparr>"

type_synonym row = "string \<Rightarrow> cell"

definition blank_row :: row where
  "blank_row = (\<lambda>c. blank_cell)"

type_synonym worksheet = "row list"

text \<open>\<open>ws.getCell(c + r).value\<close>.\<close>

definition getCell_value :: "worksheet \<Rightarrow> string \<Rightarrow> nat \<Rightarrow> jsval" where
  "getCell_value ws c r =
     (if 1 \<le> r \<and> r \<le> length ws then cval ((ws ! (r - 1)) c) else JNull)"

text \<open>The library creates a row on first access: rows up to \<open>r\<close> exist afterwards.\<close>

definition ensure_row :: "worksheet \<Rightarrow> nat \<Rightarrow> worksheet" where
  "ensure_row ws r = ws @ replicate (r - length ws) blank_row"

text \<open>
  \<open>ws.spliceRows(start, 0, [null])\<close>: the rows from \<open>start\<close> on move down by one and a
  blank row takes the place \<open>start\<close>.
\<close>

definition spliceRows_blank :: "worksheet \<Rightarrow> nat \<Rightarrow> worksheet" where
  "spliceRows_blank ws start =
     (let ws' = ensure_row ws (start - 1)
      in take (start - 1) ws' @ blank_row # drop (start - 1) ws')"

text \<open>The two assignments the pass makes: \<open>cell.value = v\<close> and \<open>cell.fill = f\<close>.\<close>

datatype cell_write =
  SetValue string nat jsval
| SetFill string nat fill

definition update_cell :: "worksheet \<Rightarrow> string \<Rightarrow> nat \<Rightarrow> (cell \<Rightarrow> cell) \<Rightarrow> worksheet" where
  "update_cell ws c r f =
     (let ws' = ensure_row ws r
      in ws'[r - 1 := (ws' ! (r - 1))(c := f ((ws' ! (r - 1)) c))])"

fun apply_write :: "worksheet \<Rightarrow> cell_write \<Rightarrow> worksheet" where
  "apply_write ws (SetValue c r v) = update_cell ws c r (\<lambda>x. x\<lparr>cval := v\<rparr>)"
| "apply_write ws (SetFill c r f) = update_cell ws c r (\<lambda>x. x\<lparr>cfill := Some f\<rparr>)"

subsection \<open>The pass\<close>

definition HEADER_ROW :: nat where
  "HEADER_ROW = 3"

definition FIRST_DATA_ROW :: nat where
  "FIRST_DATA_ROW = 4"

text \<open>
  The record the scraper returns for a key. Its \<open>URL\<close> field is never read by the server
  and is left out.
\<close>

record webdata =
  web_A2V :: jsval
  web_Produkttitel :: jsval
  web_Weitere_Artikelnummer :: jsval
  web_Gewicht :: jsval
  web_Abmessung :: jsval
  web_Werkstoff :: jsval
  web_Materialklassifizierung :: jsval

text \<open>
  What the pass takes from outside the two source files: number formatting of the
  runtime, the configured weight tolerance, and the map \<open>scrapeMany\<close> returned.
\<close>

record env =
  numToString :: "real \<Rightarrow> jsstring"
  toFixed :: "real \<Rightarrow> nat \<Rightarrow> jsstring"
  WEIGHT_TOL_PCT :: "real option"
  results :: "jsstring \<Rightarrow> webdata option"

text \<open>The test \<open>anyValue\<close> on the cells A, B, C and Z of a row.\<close>

definition anyValue :: "worksheet \<Rightarrow> nat \<Rightarrow> bool" where
  "anyValue ws r =
     list_ex (\<lambda>c. truthy (getCell_value ws c r) \<and> trim (toStr (getCell_value ws c r)) \<noteq> [])
       [''A'', ''B'', ''C'', ''Z'']"

definition products :: "worksheet \<Rightarrow> nat list" where
  "products ws = filter (anyValue ws) [FIRST_DATA_ROW..<Suc (length ws)]"

text \<open>
  The body of the loop for the product row \<open>r\<close>: the cells of row \<open>r\<close> are read, two
  blank rows are spliced in at \<open>r + 1\<close> and \<open>r + 2\<close>, and the assignments below are made
  in this order.
\<close>

definition product_writes :: "env \<Rightarrow> worksheet \<Rightarrow> nat \<Rightarrow> cell_write list" where
  "product_writes E ws r =
     (let A2V = toUpperCase (trim (toStr (or_empty (getCell_value ws ''Z'' r))));
          manufNoExcel = getCell_value ws ''E'' r;
          titleExcel = getCell_value ws ''C'' r;
          weightExcel = getCell_value ws ''S'' r;
          lenExcel = getCell_value ws ''U'' r;
          widExcel = getCell_value ws ''V'' r;
          heiExcel = getCell_value ws ''W'' r;
          werkstoffExcel = getCell_value ws ''P'' r;
          noteExcel = getCell_value ws ''N'' r;
          placeholder = \<lparr>web_A2V = JStr A2V, web_Produkttitel = JStr [],
            web_Weitere_Artikelnummer = JStr [], web_Gewicht = JStr [], web_Abmessung = JStr [],
            web_Werkstoff = JStr [], web_Materialklassifizierung = JStr []\<rparr>;
          webData = (if startsWith A2V (js ''A2V'')
                     then (case results E A2V of Some w \<Rightarrow> w | None \<Rightarrow> placeholder)
                     else placeholder);
          insertAt = r + 1;
          webRow = insertAt;
          cmpRow = insertAt + 1;
          dimParsed = parseDimensionsToLBH (web_Abmessung webData);
          cmpZ = compareText (JStr A2V)
                   (if truthy (web_A2V webData) then web_A2V webData else JStr A2V);
          cmpE = comparePartNo (or_empty manufNoExcel)
                   (or_empty (web_Weitere_Artikelnummer webData));
          cmpC = compareText (or_empty titleExcel) (or_empty (web_Produkttitel webData));
          cmpS = compareWeight (toFixed E) (WEIGHT_TOL_PCT E) weightExcel (web_Gewicht webData);
          cmpDim = compareDimensions (numToString E) lenExcel widExcel heiExcel
                     (web_Abmessung webData);
          cmpP = compareText (or_empty werkstoffExcel) (or_empty (web_Werkstoff webData));
          mappedN = mapMaterialClassificationToExcel (web_Materialklassifizierung webData);
          cmpN = compareText (JStr (toUpperCase (toStr (or_empty noteExcel))))
                   (JStr (toUpperCase mappedN))
      in [SetValue ''Z'' webRow (JStr A2V),
          SetValue ''E'' webRow (or_empty (web_Weitere_Artikelnummer webData)),
          SetValue ''C'' webRow (or_empty (web_Produkttitel webData)),
          SetValue ''S'' webRow (or_empty (web_Gewicht webData))]
         @ (case L dimParsed of None \<Rightarrow> [] | Some l \<Rightarrow> [SetValue ''U'' webRow (JNum l)])
         @ (case B dimParsed of None \<Rightarrow> [] | Some b \<Rightarrow> [SetValue ''V'' webRow (JNum b)])
         @ (case H dimParsed of None \<Rightarrow> [] | Some h \<Rightarrow> [SetValue ''W'' webRow (JNum h)])
         @ [SetValue ''P'' webRow (or_empty (web_Werkstoff webData)),
            SetValue ''N'' webRow (JStr mappedN),
            SetValue ''Z'' cmpRow (JStr (comment cmpZ)),
            SetFill ''Z'' cmpRow (statusCellFill (status cmpZ)),
            SetValue ''E'' cmpRow (JStr (comment cmpE)),
            SetFill ''E'' cmpRow (statusCellFill (status cmpE)),
            SetValue ''C'' cmpRow (JStr (comment cmpC)),
            SetFill ''C'' cmpRow (statusCellFill (status cmpC)),
            SetValue ''S'' cmpRow (JStr (comment cmpS)),
            SetFill ''S'' cmpRow (statusCellFill (status cmpS)),
            SetValue ''U'' cmpRow (JStr (comment cmpDim)),
            SetFill ''U'' cmpRow (statusCellFill (status cmpDim)),
            SetValue ''P'' cmpRow (JStr (comment cmpP)),
            SetFill ''P'' cmpRow (statusCellFill (status cmpP)),
            SetValue ''N'' cmpRow (JStr (comment cmpN)),
            SetFill ''N'' cmpRow (statusCellFill (status cmpN))])"

definition process_product :: "env \<Rightarrow> worksheet \<Rightarrow> nat \<Rightarrow> worksheet" where
  "process_product E ws r =
     foldl apply_write
       (spliceRows_blank (spliceRows_blank ws (r + 1)) (r + 1 + 1))
       (product_writes E ws r)"

text \<open>
  The loop \<open>for (let i = products.length - 1; i >= 0; i--)\<close>: with \<open>Suc i\<close> entries of
  the list still to do, the entry at index \<open>i\<close> is next.
\<close>

fun products_loop :: "env \<Rightarrow> nat list \<Rightarrow> nat \<Rightarrow> worksheet \<Rightarrow> worksheet" where
  "products_loop E ps 0 ws = ws"
| "products_loop E ps (Suc i) ws = products_loop E ps i (process_product E ws (ps ! i))"

definition process_worksheet :: "env \<Rightarrow> worksheet \<Rightarrow> worksheet" where
  "process_worksheet E ws =
     (let lastRow = length ws in
      if lastRow < HEADER_ROW then ws
      else let ps = products ws in products_loop E ps (length ps) ws)"

text \<open>
  The same loop, recording for every turn the row number taken from the list and the
  worksheet as it is when the turn starts.
\<close>

fun turns :: "env \<Rightarrow> nat list \<Rightarrow> nat \<Rightarrow> worksheet \<Rightarrow> (nat \<times> worksheet) list" where
  "turns E ps 0 ws = []"
| "turns E ps (Suc i) ws = (ps ! i, ws) # turns E ps i (process_product E ws (ps ! i))"

subsection \<open>The pass as an interleaving\<close>

text \<open>
  The description of the result that the pass is compared with: every row of the
  original worksheet in order, each product row followed by a web row and a comparison
  row, both built from a blank row by the assignments of the loop body.
\<close>

fun write_row :: "cell_write \<Rightarrow> nat" where
  "write_row (SetValue c r v) = r"
| "write_row (SetFill c r f) = r"

fun write_to_row :: "nat \<Rightarrow> row \<Rightarrow> cell_write \<Rightarrow> row" where
  "write_to_row n rw (SetValue c r v) = (if r = n then rw(c := (rw c)\<lparr>cval := v\<rparr>) else rw)"
| "write_to_row n rw (SetFill c r f) = (if r = n then rw(c := (rw c)\<lparr>cfill := Some f\<rparr>) else rw)"

definition web_row :: "env \<Rightarrow> worksheet \<Rightarrow> nat \<Rightarrow> row" where
  "web_row E ws r = foldl (write_to_row (r + 1)) blank_row (product_writes E ws r)"

definition cmp_row :: "env \<Rightarrow> worksheet \<Rightarrow> nat \<Rightarrow> row" where
  "cmp_row E ws r = foldl (write_to_row (r + 2)) blank_row (product_writes E ws r)"

definition interleaved_upto :: "env \<Rightarrow> worksheet \<Rightarrow> nat list \<Rightarrow> nat \<Rightarrow> worksheet" where
  "interleaved_upto E ws ps n =
     concat (map (\<lambda>r. if r \<in> set ps then [ws ! (r - 1), web_row E ws r, cmp_row E ws r]
                        else [ws ! (r - 1)])
                 [1..<Suc n])"

definition interleaved :: "env \<Rightarrow> worksheet \<Rightarrow> worksheet" where
  "interleaved E ws = interleaved_upto E ws (products ws) (length ws)"

text \<open>
  The region the pass works on: the rows from the first data row to the last row.
\<close>

definition data_region :: "worksheet \<Rightarrow> worksheet" where
  "data_region ws = drop (FIRST_DATA_ROW - 1) ws"


text \<open>The text two inputs of \<open>compareText\<close> are compared by.\<close>

definition folded :: "jsval \<Rightarrow> jsstring" where
  "folded v = collapse_spaces (toLowerCase (trim (toStr v)))"

subsection \<open>A small worksheet\<close>

text \<open>
  An environment with no scraped records and a worksheet of five rows, a header block of
  three rows and the two product rows 4 and 5, on which the theorems below are
  instantiated.
\<close>

definition demo_env :: env where
  "demo_env = \<lparr>numToString = (\<lambda>x. []), toFixed = (\<lambda>x n. []),
     WEIGHT_TOL_PCT = Some 0, results = (\<lambda>k. None)\<rparr>"

definition demo_row :: "string \<Rightarrow> row" where
  "demo_row k = blank_row(''Z'' := \<lparr>cval = JStr (js k), cfill = None\<rparr>)"

definition demo_sheet :: worksheet where
  "demo_sheet = [blank_row, blank_row, blank_row, demo_row ''a2v1'', demo_row ''a2v2'']"

text \<open>The same worksheet with a blank row between the two product rows.\<close>

definition gap_sheet :: worksheet where
  "gap_sheet =
     [blank_row, blank_row, blank_row, demo_row ''a2v1'', blank_row, demo_row ''a2v2'']"

section \<open>Properties\<close>

subsection \<open>Unfolding the string functions on a given text\<close>

lemmas string_defs = trim_def toLowerCase_def lower_unit_def toUpperCase_def upper_unit_def
  startsWith_def endsWith_def strip_spaces_def unify_separators_def is_space_def is_digit_def
  is_word_def is_az_def is_nullish_def or_empty_def

lemmas regex_defs = regex_test_def re_lit_def contains_def word_boundary_def number_at_def
  unsigned_at_def parseFloat_def digits_val_def Math_round_def

subsection \<open>Dimension parsing\<close>

text \<open>
  C1. On the documented input \<open>30x20x10 mm\<close> the parser does not return 30, 20, 10 but
  30000, 20000, 10000: the test \<open>s.endsWith('m')\<close> also holds for a text that ends in
  \<open>mm\<close> or \<open>cm\<close>, so a millimetre or centimetre text is scaled by 1000. The text
  \<open>0.3 x 0.2 x 0.1 m\<close> is parsed as the specification says.
\<close>

theorem parseDimensions_mm_read_as_metres:
  "parseDimensionsToLBH (JStr (js ''30x20x10 mm''))
     = \<lparr>L = Some 30000, B = Some 20000, H = Some 10000\<rparr>
   \<and> parseDimensionsToLBH (JStr (js ''30x20x10 cm''))
     = \<lparr>L = Some 30000, B = Some 20000, H = Some 10000\<rparr>
   \<and> parseDimensionsToLBH (JStr (js ''0.3 x 0.2 x 0.1 m''))
     = \<lparr>L = Some 300, B = Some 200, H = Some 100\<rparr>"
  by (simp add: parseDimensionsToLBH_def string_defs regex_defs Let_def)

subsection \<open>Weight normalisation\<close>

text \<open>
  C2. On \<open>2.5 t\<close> the weight is not multiplied by 1000 but returned as 2.5: white space
  is stripped before \<open>/\bt\b/\<close> is tested, and in \<open>2.5t\<close> no word boundary stands between
  the digit and the letter. The examples \<open>500 mg\<close> and \<open>3,2\<close> give 0.0005 and 3.2 as the
  specification says.
\<close>

theorem normalizeWeight_ton_not_detected:
  "normalizeWeightToKg (JStr (js ''2.5 t'')) = Some (5 / 2)
   \<and> normalizeWeightToKg (JStr (js ''500 mg'')) = Some (5 / 10000)
   \<and> normalizeWeightToKg (JStr (js ''3,2'')) = Some (32 / 10)"
  by (simp add: normalizeWeightToKg_def cleanNumberString_def string_defs regex_defs Let_def)

subsection \<open>Weight tolerance\<close>




subsection \<open>Material classification\<close>

lemma regex_lit_prefix:
  assumes "regex_test (re_lit (w @ v)) s"
  shows "regex_test (re_lit w) s"
proof -
  from assms obtain i where i: "i \<in> set [0..<Suc (length s)]"
    and m: "take (length (w @ v)) (drop i s) = w @ v"
    unfolding regex_test_def list_ex_iff re_lit_def startsWith_def by blast
  have "take (length w) (take (length (w @ v)) (drop i s)) = take (length w) (w @ v)"
    using m by simp
  then have "take (length w) (drop i s) = w"
    by (simp add: min_def)
  with i show ?thesis
    unfolding regex_test_def list_ex_iff re_lit_def startsWith_def by blast
qed

lemma schweiss_alternatives:
  "(regex_test (re_lit (js ''schwei'')) s
      \<or> regex_test (re_lit (js ''schwei'' @ [223])) s
      \<or> regex_test (re_lit (js ''schweiss'')) s)
   = regex_test (re_lit (js ''schwei'')) s"
proof -
  have "js ''schweiss'' = js ''schwei'' @ js ''ss''" by simp
  then show ?thesis
    using regex_lit_prefix [of "js ''schwei''" "[223]" s]
          regex_lit_prefix [of "js ''schwei''" "js ''ss''" s]
    by metis
qed

text \<open>
  C8. \<open>mapMaterialClassificationToExcel\<close> returns the one code \<open>OHNE/N/N/N/N\<close> exactly when
  the text is present (for a string this follows) and its lower-cased form contains \<open>nicht\<close>, one of \<open>schwei\<close>,
  \<open>guss\<close>, \<open>klebe\<close>, \<open>schmiede\<close>, and \<open>relev\<close>; in every other case, a missing text
  included, it returns the empty string. \<open>Nicht Schweiss relevant\<close> yields the code and
  \<open>Schweiss relevant\<close> the empty string.
\<close>

theorem mapMaterialClassification_spec:
  "(mapMaterialClassificationToExcel text = js ''OHNE/N/N/N/N'')
     = (truthy text
        \<and> contains (toLowerCase (toStr text)) (js ''nicht'')
        \<and> (contains (toLowerCase (toStr text)) (js ''schwei'')
           \<or> contains (toLowerCase (toStr text)) (js ''guss'')
           \<or> contains (toLowerCase (toStr text)) (js ''klebe'')
           \<or> contains (toLowerCase (toStr text)) (js ''schmiede''))
        \<and> contains (toLowerCase (toStr text)) (js ''relev''))
   \<and> (mapMaterialClassificationToExcel (JStr s) = js ''OHNE/N/N/N/N'')
     = (contains (toLowerCase s) (js ''nicht'')
        \<and> (contains (toLowerCase s) (js ''schwei'')
           \<or> contains (toLowerCase s) (js ''guss'')
           \<or> contains (toLowerCase s) (js ''klebe'')
           \<or> contains (toLowerCase s) (js ''schmiede''))
        \<and> contains (toLowerCase s) (js ''relev''))
   \<and> (mapMaterialClassificationToExcel text = js ''OHNE/N/N/N/N''
        \<or> mapMaterialClassificationToExcel text = [])
   \<and> mapMaterialClassificationToExcel JNull = []
   \<and> mapMaterialClassificationToExcel JUndefined = []
   \<and> mapMaterialClassificationToExcel (JStr []) = []
   \<and> mapMaterialClassificationToExcel (JStr (js ''Nicht Schweiss relevant'')) = js ''OHNE/N/N/N/N''
   \<and> mapMaterialClassificationToExcel (JStr (js ''Schweiss relevant'')) = []"
proof -
  have general: "mapMaterialClassificationToExcel text =
      (if truthy text
        \<and> contains (toLowerCase (toStr text)) (js ''nicht'')
        \<and> (contains (toLowerCase (toStr text)) (js ''schwei'')
           \<or> contains (toLowerCase (toStr text)) (js ''guss'')
           \<or> contains (toLowerCase (toStr text)) (js ''klebe'')
           \<or> contains (toLowerCase (toStr text)) (js ''schmiede''))
        \<and> contains (toLowerCase (toStr text)) (js ''relev'')
       then js ''OHNE/N/N/N/N'' else [])"
    unfolding mapMaterialClassificationToExcel_def Let_def contains_def schweiss_alternatives
    by simp
  have "\<not> contains (toLowerCase []) (js ''nicht'')"
    by (simp add: contains_def regex_test_def re_lit_def startsWith_def toLowerCase_def)
  then have strings: "(mapMaterialClassificationToExcel (JStr s) = js ''OHNE/N/N/N/N'')
     = (contains (toLowerCase s) (js ''nicht'')
        \<and> (contains (toLowerCase s) (js ''schwei'')
           \<or> contains (toLowerCase s) (js ''guss'')
           \<or> contains (toLowerCase s) (js ''klebe'')
           \<or> contains (toLowerCase s) (js ''schmiede''))
        \<and> contains (toLowerCase s) (js ''relev''))"
    unfolding mapMaterialClassificationToExcel_def Let_def contains_def schweiss_alternatives
    by (cases "s = []") simp_all
  have ex1: "mapMaterialClassificationToExcel (JStr (js ''Nicht Schweiss relevant''))
      = js ''OHNE/N/N/N/N''"
    by (simp add: mapMaterialClassificationToExcel_def string_defs regex_defs Let_def)
  have ex2: "mapMaterialClassificationToExcel (JStr (js ''Schweiss relevant'')) = []"
    by (simp add: mapMaterialClassificationToExcel_def string_defs regex_defs Let_def)
  have absent: "mapMaterialClassificationToExcel JNull = []"
    "mapMaterialClassificationToExcel JUndefined = []"
    "mapMaterialClassificationToExcel (JStr []) = []"
    by (simp_all add: mapMaterialClassificationToExcel_def)
  show ?thesis
    using ex1 ex2 absent strings by (simp add: general)
qed

subsection \<open>Text comparison\<close>

text \<open>
  C5, as the specification states it, fails: on a mismatch the comment of \<open>compareText\<close>
  is the fixed word \<open>abweichend\<close> and holds neither raw value.
\<close>

theorem compareText_mismatch_comment_counterexample:
  "status (compareText (JStr (js ''x1'')) (JStr (js ''y2''))) = RED
   \<and> comment (compareText (JStr (js ''x1'')) (JStr (js ''y2''))) = js ''abweichend''
   \<and> \<not> contains (comment (compareText (JStr (js ''x1'')) (JStr (js ''y2'')))) (js ''x1'')
   \<and> \<not> contains (comment (compareText (JStr (js ''x1'')) (JStr (js ''y2'')))) (js ''y2'')"
  by (simp add: compareText_def string_defs regex_defs Let_def)

text \<open>
  C5, amended. \<open>compareText\<close> returns ORANGE with \<open>Beide fehlen\<close> when both sides are
  missing (falsy), ORANGE with \<open>Excel fehlt\<close> or \<open>Web fehlt\<close> when exactly one is; when
  both are present it returns GREEN with \<open>identisch\<close> if the two texts are equal after
  trimming, lower-casing and collapsing white space, and RED with the fixed comment
  \<open>abweichend\<close> otherwise.
\<close>

theorem compareText_spec:
  "(\<not> truthy a \<and> \<not> truthy b \<longrightarrow>
      compareText a b = \<lparr>status = ORANGE, comment = js ''Beide fehlen''\<rparr>)
   \<and> (\<not> truthy a \<and> truthy b \<longrightarrow>
      compareText a b = \<lparr>status = ORANGE, comment = js ''Excel fehlt''\<rparr>)
   \<and> (truthy a \<and> \<not> truthy b \<longrightarrow>
      compareText a b = \<lparr>status = ORANGE, comment = js ''Web fehlt''\<rparr>)
   \<and> (truthy a \<and> truthy b \<longrightarrow>
      (status (compareText a b) = GREEN) = (folded a = folded b)
      \<and> (status (compareText a b) = RED) = (folded a \<noteq> folded b)
      \<and> comment (compareText a b)
          = (if folded a = folded b then js ''identisch'' else js ''abweichend''))"
  by (simp add: compareText_def folded_def Let_def)

theorem compareText_spec_witness:
  "\<not> truthy JNull \<and> truthy (JStr (js ''  Hello   World '')) \<and> truthy (JStr (js ''hello world''))
   \<and> truthy (JStr (js ''x1''))
   \<and> compareText JNull JUndefined = \<lparr>status = ORANGE, comment = js ''Beide fehlen''\<rparr>
   \<and> compareText JNull (JStr (js ''x1'')) = \<lparr>status = ORANGE, comment = js ''Excel fehlt''\<rparr>
   \<and> compareText (JStr (js ''x1'')) JNull = \<lparr>status = ORANGE, comment = js ''Web fehlt''\<rparr>
   \<and> folded (JStr (js ''  Hello   World '')) = folded (JStr (js ''hello world''))
   \<and> status (compareText (JStr (js ''  Hello   World '')) (JStr (js ''hello world''))) = GREEN
   \<and> folded (JStr (js ''x1'')) \<noteq> folded (JStr (js ''hello world''))
   \<and> status (compareText (JStr (js ''x1'')) (JStr (js ''hello world''))) = RED"
proof -
  have f1: "folded (JStr (js ''  Hello   World '')) = js ''hello world''"
    by (simp add: folded_def string_defs)
  have f2: "folded (JStr (js ''hello world'')) = js ''hello world''"
    by (simp add: folded_def string_defs)
  have f3: "folded (JStr (js ''x1'')) = js ''x1''"
    by (simp add: folded_def string_defs)
  show ?thesis
    using compareText_spec [of JNull JUndefined]
      compareText_spec [of JNull "JStr (js ''x1'')"]
      compareText_spec [of "JStr (js ''x1'')" JNull]
      compareText_spec [of "JStr (js ''  Hello   World '')" "JStr (js ''hello world'')"]
      compareText_spec [of "JStr (js ''x1'')" "JStr (js ''hello world'')"]
      f1 f2 f3
    by simp
qed

subsection \<open>Dimension comparison\<close>

text \<open>
  C9. When every component the parser returns for the web text is missing or 0,
  \<open>compareDimensions\<close> treats the web side as missing and returns ORANGE: \<open>Beide fehlen\<close>
  when the Excel side is missing too, \<open>Web fehlt/unklar\<close> otherwise. The text \<open>0x0x0\<close>
  is such a text although it holds three numbers, while a 0 on the Excel side, as a
  string or as a number, counts as present.
\<close>

theorem compareDimensions_zero_web_is_missing:
  assumes "L (parseDimensionsToLBH webDimText) = None \<or> L (parseDimensionsToLBH webDimText) = Some 0"
    and "B (parseDimensionsToLBH webDimText) = None \<or> B (parseDimensionsToLBH webDimText) = Some 0"
    and "H (parseDimensionsToLBH webDimText) = None \<or> H (parseDimensionsToLBH webDimText) = Some 0"
  shows "status (compareDimensions numToStr excelU excelV excelW webDimText) = ORANGE
    \<and> comment (compareDimensions numToStr excelU excelV excelW webDimText)
        = (if toNumber excelU = None \<and> toNumber excelV = None \<and> toNumber excelW = None
           then js ''Beide fehlen'' else js ''Web fehlt/unklar'')
    \<and> parseDimensionsToLBH (JStr (js ''0x0x0'')) = \<lparr>L = Some 0, B = Some 0, H = Some 0\<rparr>
    \<and> toNumber (JStr (js ''0'')) = Some 0
    \<and> toNumber (JNum 0) = Some 0"
proof -
  have noWeb: "\<not> num_truthy (L (parseDimensionsToLBH webDimText))"
    "\<not> num_truthy (B (parseDimensionsToLBH webDimText))"
    "\<not> num_truthy (H (parseDimensionsToLBH webDimText))"
    using assms by (auto simp: num_truthy_def)
  have verdict: "compareDimensions numToStr excelU excelV excelW webDimText =
      (if toNumber excelU = None \<and> toNumber excelV = None \<and> toNumber excelW = None
       then \<lparr>status = ORANGE, comment = js ''Beide fehlen''\<rparr>
       else \<lparr>status = ORANGE, comment = js ''Web fehlt/unklar''\<rparr>)"
    unfolding compareDimensions_def Let_def using noWeb by simp
  have zeros: "parseDimensionsToLBH (JStr (js ''0x0x0'')) = \<lparr>L = Some 0, B = Some 0, H = Some 0\<rparr>"
    by (simp add: parseDimensionsToLBH_def string_defs regex_defs Let_def)
  have excel_zero: "toNumber (JStr (js ''0'')) = Some 0" "toNumber (JNum 0) = Some 0"
    by (simp_all add: toNumber_def cleanNumberString_def string_defs regex_defs)
  show ?thesis
    using zeros excel_zero by (simp add: verdict)
qed

theorem compareDimensions_zero_web_is_missing_witness:
  "L (parseDimensionsToLBH (JStr (js ''0x0x0''))) = Some 0
   \<and> B (parseDimensionsToLBH (JStr (js ''0x0x0''))) = Some 0
   \<and> H (parseDimensionsToLBH (JStr (js ''0x0x0''))) = Some 0
   \<and> compareDimensions (\<lambda>x. []) (JStr (js ''0'')) (JStr (js ''0'')) (JStr (js ''0''))
        (JStr (js ''0x0x0'')) = \<lparr>status = ORANGE, comment = js ''Web fehlt/unklar''\<rparr>
   \<and> compareDimensions (\<lambda>x. []) JNull JNull JNull
        (JStr (js ''0x0x0'')) = \<lparr>status = ORANGE, comment = js ''Beide fehlen''\<rparr>"
proof -
  have zeros: "parseDimensionsToLBH (JStr (js ''0x0x0'')) = \<lparr>L = Some 0, B = Some 0, H = Some 0\<rparr>"
    by (simp add: parseDimensionsToLBH_def string_defs regex_defs Let_def)
  have l: "L (parseDimensionsToLBH (JStr (js ''0x0x0''))) = None
      \<or> L (parseDimensionsToLBH (JStr (js ''0x0x0''))) = Some 0"
    and b: "B (parseDimensionsToLBH (JStr (js ''0x0x0''))) = None
      \<or> B (parseDimensionsToLBH (JStr (js ''0x0x0''))) = Some 0"
    and h: "H (parseDimensionsToLBH (JStr (js ''0x0x0''))) = None
      \<or> H (parseDimensionsToLBH (JStr (js ''0x0x0''))) = Some 0"
    using zeros by simp_all
  have excel: "toNumber (JStr (js ''0'')) = Some 0" "toNumber JNull = None"
    by (simp_all add: toNumber_def cleanNumberString_def string_defs regex_defs)
  have present: "compareDimensions (\<lambda>x. []) (JStr (js ''0'')) (JStr (js ''0'')) (JStr (js ''0''))
      (JStr (js ''0x0x0'')) = \<lparr>status = ORANGE, comment = js ''Web fehlt/unklar''\<rparr>"
    using compareDimensions_zero_web_is_missing [OF l b h, where numToStr = "\<lambda>x. []"
        and excelU = "JStr (js ''0'')" and excelV = "JStr (js ''0'')" and excelW = "JStr (js ''0'')"]
      excel
    by (simp add: verdict.equality)
  have missing: "compareDimensions (\<lambda>x. []) JNull JNull JNull
      (JStr (js ''0x0x0'')) = \<lparr>status = ORANGE, comment = js ''Beide fehlen''\<rparr>"
    using compareDimensions_zero_web_is_missing [OF l b h, where numToStr = "\<lambda>x. []"
        and excelU = JNull and excelV = JNull and excelW = JNull]
      excel
    by (simp add: verdict.equality)
  show ?thesis
    using present missing zeros by simp
qed

subsection \<open>The single-product endpoint\<close>

text \<open>
  C7. \<open>POST /api/scrape\<close> answers with status 400, and has not called \<open>scrapeOne\<close>,
  exactly when the key, trimmed and upper-cased, does not start with \<open>A2V\<close>. Otherwise it
  calls \<open>scrapeOne\<close> once, on the normalised key, and answers with the record returned
  (with status 500 and the message when \<open>scrapeOne\<close> fails).
\<close>

theorem api_scrape_spec:
  "((\<exists>msg. fst (api_scrape scrapeOne articleNumber) = Status400 msg)
      = (\<not> startsWith (toUpperCase (trim (toStr (or_empty articleNumber)))) (js ''A2V'')))
   \<and> (\<not> startsWith (toUpperCase (trim (toStr (or_empty articleNumber)))) (js ''A2V'') \<longrightarrow>
        snd (api_scrape scrapeOne articleNumber) = [])
   \<and> (startsWith (toUpperCase (trim (toStr (or_empty articleNumber)))) (js ''A2V'') \<longrightarrow>
        snd (api_scrape scrapeOne articleNumber)
          = [toUpperCase (trim (toStr (or_empty articleNumber)))]
        \<and> fst (api_scrape scrapeOne articleNumber)
          = (case scrapeOne (toUpperCase (trim (toStr (or_empty articleNumber)))) of
               Inr r \<Rightarrow> Json200 r | Inl e \<Rightarrow> Status500 e))"
  by (simp add: api_scrape_def Let_def split: sum.split)

theorem api_scrape_spec_witness:
  "startsWith (toUpperCase (trim (toStr (or_empty (JStr (js '' a2v123 '')))))) (js ''A2V'')
   \<and> api_scrape (\<lambda>k. Inr (length k)) (JStr (js '' a2v123 '')) = (Json200 6, [js ''A2V123''])
   \<and> \<not> startsWith (toUpperCase (trim (toStr (or_empty (JStr (js ''b2v123'')))))) (js ''A2V'')
   \<and> snd (api_scrape (\<lambda>k. Inr (length k)) (JStr (js ''b2v123''))) = []
   \<and> \<not> startsWith (toUpperCase (trim (toStr (or_empty JUndefined)))) (js ''A2V'')
   \<and> snd (api_scrape (\<lambda>k. Inr (length k)) JUndefined) = []"
proof -
  have n1: "toUpperCase (trim (toStr (or_empty (JStr (js '' a2v123 ''))))) = js ''A2V123''"
    by (simp add: string_defs)
  have n2: "toUpperCase (trim (toStr (or_empty (JStr (js ''b2v123''))))) = js ''B2V123''"
    by (simp add: string_defs)
  have n3: "toUpperCase (trim (toStr (or_empty JUndefined))) = []"
    by (simp add: string_defs)
  have s1: "startsWith (js ''A2V123'') (js ''A2V'')" "\<not> startsWith (js ''B2V123'') (js ''A2V'')"
    "\<not> startsWith [] (js ''A2V'')"
    by (simp_all add: startsWith_def)
  show ?thesis
    using api_scrape_spec [of "\<lambda>k. Inr (length k)" "JStr (js '' a2v123 '')"]
      api_scrape_spec [of "\<lambda>k. Inr (length k)" "JStr (js ''b2v123'')"]
      api_scrape_spec [of "\<lambda>k. Inr (length k)" JUndefined]
      s1
    unfolding n1 n2 n3
    by (simp add: prod_eq_iff)
qed

subsection \<open>Part number normalisation\<close>








subsection \<open>The worksheet pass\<close>

lemma spliceRows_blank_in_range:
  "start - 1 \<le> length ws \<Longrightarrow>
   spliceRows_blank ws start = take (start - 1) ws @ blank_row # drop (start - 1) ws"
  by (simp add: spliceRows_blank_def ensure_row_def)

lemma splice_twice:
  assumes "r \<le> length ws"
  shows "spliceRows_blank (spliceRows_blank ws (r + 1)) (r + 1 + 1)
    = take r ws @ blank_row # blank_row # drop r ws"
proof -
  have first: "spliceRows_blank ws (r + 1) = take r ws @ blank_row # drop r ws"
    using assms by (simp add: spliceRows_blank_in_range)
  have "spliceRows_blank (take r ws @ blank_row # drop r ws) (r + 1 + 1)
      = take (r + 1) (take r ws @ blank_row # drop r ws) @ blank_row
          # drop (r + 1) (take r ws @ blank_row # drop r ws)"
    using assms by (simp add: spliceRows_blank_in_range)
  also have "\<dots> = take r ws @ blank_row # blank_row # drop r ws"
    using assms by simp
  finally show ?thesis
    using first by simp
qed

lemma update_cell_in_range:
  "1 \<le> r \<Longrightarrow> r \<le> length ws \<Longrightarrow>
   update_cell ws c r f = ws[r - 1 := (ws ! (r - 1))(c := f ((ws ! (r - 1)) c))]"
  by (simp add: update_cell_def ensure_row_def)

lemma apply_write_pair:
  assumes "write_row w = length pre + 1 \<or> write_row w = length pre + 2"
  shows "apply_write (pre @ a # b # post) w
    = pre @ write_to_row (length pre + 1) a w # write_to_row (length pre + 2) b w # post"
proof (cases w)
  case (SetValue c r v)
  with assms show ?thesis
    by (auto simp: update_cell_in_range list_update_append nth_append)
next
  case (SetFill c r f)
  with assms show ?thesis
    by (auto simp: update_cell_in_range list_update_append nth_append)
qed

lemma foldl_apply_write_pair:
  assumes "list_all (\<lambda>w. write_row w = length pre + 1 \<or> write_row w = length pre + 2) ws"
  shows "foldl apply_write (pre @ a # b # post) ws
    = pre @ foldl (write_to_row (length pre + 1)) a ws
        # foldl (write_to_row (length pre + 2)) b ws # post"
  using assms
proof (induction ws arbitrary: a b)
  case Nil
  then show ?case by simp
next
  case (Cons w ws)
  then show ?case
    by (simp add: apply_write_pair)
qed

lemma product_writes_rows:
  "list_all (\<lambda>w. write_row w = r + 1 \<or> write_row w = r + 2) (product_writes E ws r)"
  by (simp add: product_writes_def Let_def split: option.split)

lemma process_product_eq:
  assumes "r \<le> length ws"
  shows "process_product E ws r = take r ws @ web_row E ws r # cmp_row E ws r # drop r ws"
proof -
  have len: "length (take r ws) = r"
    using assms by simp
  have "list_all (\<lambda>w. write_row w = length (take r ws) + 1 \<or> write_row w = length (take r ws) + 2)
      (product_writes E ws r)"
    unfolding len by (rule product_writes_rows)
  then have "foldl apply_write (take r ws @ blank_row # blank_row # drop r ws) (product_writes E ws r)
      = take r ws @ foldl (write_to_row (length (take r ws) + 1)) blank_row (product_writes E ws r)
          # foldl (write_to_row (length (take r ws) + 2)) blank_row (product_writes E ws r)
          # drop r ws"
    by (rule foldl_apply_write_pair)
  then show ?thesis
    unfolding len process_product_def web_row_def cmp_row_def
    using splice_twice [OF assms] by simp
qed

lemma getCell_value_take:
  assumes "1 \<le> r" and "r \<le> length w" and "r \<le> length ws" and "take r w = take r ws"
  shows "getCell_value w c r = getCell_value ws c r"
proof -
  have "w ! (r - 1) = take r w ! (r - 1)"
    using assms(1) by simp
  also have "\<dots> = take r ws ! (r - 1)"
    using assms(4) by simp
  also have "\<dots> = ws ! (r - 1)"
    using assms(1) by simp
  finally show ?thesis
    using assms by (simp add: getCell_value_def)
qed

lemma product_writes_take:
  assumes "1 \<le> r" and "r \<le> length w" and "r \<le> length ws" and "take r w = take r ws"
  shows "product_writes E w r = product_writes E ws r"
  unfolding product_writes_def getCell_value_take [OF assms] ..


lemma web_row_take:
  assumes "1 \<le> r" and "r \<le> length w" and "r \<le> length ws" and "take r w = take r ws"
  shows "web_row E w r = web_row E ws r" and "cmp_row E w r = cmp_row E ws r"
  by (simp_all add: web_row_def cmp_row_def product_writes_take [OF assms])

text \<open>The step on a worksheet whose first \<open>m\<close> rows are those of \<open>ws\<close>.\<close>

lemma process_product_prefix:
  assumes "1 \<le> r" and "r \<le> m" and "m \<le> length ws"
  shows "process_product E (take m ws @ rest) r
    = take (r - 1) ws
      @ (ws ! (r - 1) # web_row E ws r # cmp_row E ws r # drop r (take m ws) @ rest)"
proof -
  let ?w = "take m ws @ rest"
  have len: "r \<le> length ?w" "r \<le> length ws"
    using assms by simp_all
  have same: "take r ?w = take r ws"
    using assms by (simp add: min_def)
  have "process_product E ?w r = take r ?w @ web_row E ?w r # cmp_row E ?w r # drop r ?w"
    using len(1) by (rule process_product_eq)
  also have "\<dots> = take r ws @ web_row E ws r # cmp_row E ws r # drop r ?w"
    using web_row_take [OF assms(1) len same] same by simp
  also have "take r ws = take (r - 1) ws @ [ws ! (r - 1)]"
    using assms take_Suc_conv_app_nth [of "r - 1" ws] by simp
  also have "drop r ?w = drop r (take m ws) @ rest"
    using assms by simp
  finally show ?thesis by simp
qed

lemma products_loop_foldl:
  "n \<le> length ps \<Longrightarrow>
   products_loop E ps n ws = foldl (process_product E) ws (rev (take n ps))"
proof (induction n arbitrary: ws)
  case 0
  then show ?case by simp
next
  case (Suc n)
  then have "take (Suc n) ps = take n ps @ [ps ! n]"
    by (simp add: take_Suc_conv_app_nth)
  with Suc show ?case by simp
qed

lemma turns_order:
  "n \<le> length ps \<Longrightarrow> map fst (turns E ps n ws) = rev (take n ps)"
proof (induction n arbitrary: ws)
  case 0
  then show ?case by simp
next
  case (Suc n)
  then have "take (Suc n) ps = take n ps @ [ps ! n]"
    by (simp add: take_Suc_conv_app_nth)
  with Suc show ?case by simp
qed

subsection \<open>The interleaving\<close>

lemma originals_upto:
  "m \<le> length ws \<Longrightarrow> map (\<lambda>i. ws ! (i - 1)) [Suc r..<Suc m] = drop r (take m ws)"
  by (rule nth_equalityI) (auto simp: min_def simp del: upt_Suc)

lemma interleaved_upto_none:
  assumes "m \<le> length ws" and "\<And>i. Suc r \<le> i \<Longrightarrow> i \<le> m \<Longrightarrow> i \<notin> set ps"
  shows "concat (map (\<lambda>i. if i \<in> set ps then [ws ! (i - 1), web_row E ws i, cmp_row E ws i]
                         else [ws ! (i - 1)]) [Suc r..<Suc m])
    = drop r (take m ws)"
proof -
  have "map (\<lambda>i. if i \<in> set ps then [ws ! (i - 1), web_row E ws i, cmp_row E ws i]
                  else [ws ! (i - 1)]) [Suc r..<Suc m]
      = map (\<lambda>i. [ws ! (i - 1)]) [Suc r..<Suc m]"
    using assms(2) by (intro map_cong) auto
  then have "concat (map (\<lambda>i. if i \<in> set ps then [ws ! (i - 1), web_row E ws i, cmp_row E ws i]
                  else [ws ! (i - 1)]) [Suc r..<Suc m])
      = concat (map (\<lambda>i. [ws ! (i - 1)]) [Suc r..<Suc m])"
    by (rule arg_cong)
  also have "\<dots> = map (\<lambda>i. ws ! (i - 1)) [Suc r..<Suc m]"
    by (rule concat_map_singleton)
  also have "\<dots> = drop r (take m ws)"
    using assms(1) by (rule originals_upto)
  finally show ?thesis .
qed

lemma interleaved_upto_Nil: "m \<le> length ws \<Longrightarrow> interleaved_upto E ws [] m = take m ws"
  using interleaved_upto_none [of m ws 0 "[]" E] by (simp add: interleaved_upto_def)

lemma interleaved_upto_cong:
  assumes "\<And>i. 1 \<le> i \<Longrightarrow> i \<le> n \<Longrightarrow> (i \<in> set ps) = (i \<in> set qs)"
  shows "interleaved_upto E ws ps n = interleaved_upto E ws qs n"
  unfolding interleaved_upto_def
  using assms by (intro arg_cong [where f = concat] map_cong) auto

lemma interleaved_upto_split:
  assumes "1 \<le> r" and "r \<le> m"
  shows "interleaved_upto E ws ps m
    = interleaved_upto E ws ps (r - 1)
      @ (if r \<in> set ps then [ws ! (r - 1), web_row E ws r, cmp_row E ws r] else [ws ! (r - 1)])
      @ concat (map (\<lambda>i. if i \<in> set ps then [ws ! (i - 1), web_row E ws i, cmp_row E ws i]
                          else [ws ! (i - 1)]) [Suc r..<Suc m])"
proof -
  obtain k where k: "Suc m = r + k"
    using assms(2) by (metis le_Suc_eq le_iff_add)
  have "[1..<r + k] = [1..<r] @ [r..<r + k]"
    using assms(1) by (rule upt_add_eq_append)
  moreover have "[r..<Suc m] = r # [Suc r..<Suc m]"
    using assms(2) by (simp add: upt_conv_Cons)
  moreover have "Suc (r - 1) = r"
    using assms(1) by simp
  ultimately have "[1..<Suc m] = [1..<Suc (r - 1)] @ [r] @ [Suc r..<Suc m]"
    using k by simp
  then show ?thesis
    unfolding interleaved_upto_def by simp
qed


lemma loop_interleaves:
  assumes "sorted_wrt (<) ps" and "\<And>p. p \<in> set ps \<Longrightarrow> 1 \<le> p \<and> p \<le> m" and "m \<le> length ws"
  shows "foldl (process_product E) (take m ws @ rest) (rev ps) = interleaved_upto E ws ps m @ rest"
  using assms
proof (induction ps arbitrary: m rest rule: rev_induct)
  case Nil
  then show ?case by (simp add: interleaved_upto_Nil)
next
  case (snoc r qs)
  have r: "1 \<le> r" "r \<le> m"
    using snoc.prems(2) [of r] by simp_all
  have below: "q < r" if "q \<in> set qs" for q
    using snoc.prems(1) that by (simp add: sorted_wrt_append)
  have sorted: "sorted_wrt (<) qs"
    using snoc.prems(1) by (simp add: sorted_wrt_append)
  have range: "1 \<le> q \<and> q \<le> r - 1" if "q \<in> set qs" for q
    using below [OF that] snoc.prems(2) [of q] that by simp
  have short: "r - 1 \<le> length ws"
    using r snoc.prems(3) by simp
  let ?tail = "ws ! (r - 1) # web_row E ws r # cmp_row E ws r # drop r (take m ws) @ rest"
  have "foldl (process_product E) (take m ws @ rest) (rev (qs @ [r]))
      = foldl (process_product E) (process_product E (take m ws @ rest) r) (rev qs)"
    by simp
  also have "\<dots> = foldl (process_product E) (take (r - 1) ws @ ?tail) (rev qs)"
    using process_product_prefix [OF r snoc.prems(3)] by simp
  also have "\<dots> = interleaved_upto E ws qs (r - 1) @ ?tail"
    using sorted range short by (rule snoc.IH)
  also have "interleaved_upto E ws qs (r - 1) = interleaved_upto E ws (qs @ [r]) (r - 1)"
    using r by (intro interleaved_upto_cong) auto
  also have "drop r (take m ws)
      = concat (map (\<lambda>i. if i \<in> set (qs @ [r])
                          then [ws ! (i - 1), web_row E ws i, cmp_row E ws i]
                          else [ws ! (i - 1)]) [Suc r..<Suc m])"
    using snoc.prems(3) by (intro interleaved_upto_none [symmetric]) (auto dest: below)
  finally show ?case
    using interleaved_upto_split [OF r, of E ws "qs @ [r]"] by simp
qed

lemma turns_prefix:
  assumes "sorted_wrt (<) ps" and "n \<le> length ps"
    and "\<And>p. p \<in> set (take n ps) \<Longrightarrow> 1 \<le> p \<and> p \<le> m" and "m \<le> length ws"
  shows "list_all (\<lambda>(r, w). 1 \<le> r \<and> r \<le> length w \<and> take r w = take r ws)
           (turns E ps n (take m ws @ rest))"
  using assms(2-)
proof (induction n arbitrary: m rest)
  case 0
  then show ?case by simp
next
  case (Suc n)
  let ?r = "ps ! n"
  have n: "n < length ps"
    using Suc.prems(1) by simp
  have "?r \<in> set (take (Suc n) ps)"
    using n by (simp add: take_Suc_conv_app_nth)
  then have r: "1 \<le> ?r" "?r \<le> m"
    using Suc.prems(2) by blast+
  have below: "1 \<le> p \<and> p \<le> ?r - 1" if "p \<in> set (take n ps)" for p
  proof -
    from that obtain i where i: "i < n" "p = ps ! i"
      using n by (auto simp: in_set_conv_nth)
    then have "p < ?r"
      using assms(1) n by (simp add: sorted_wrt_nth_less)
    moreover have "p \<in> set (take (Suc n) ps)"
      using that n by (simp add: take_Suc_conv_app_nth)
    then have "1 \<le> p"
      using Suc.prems(2) by blast
    ultimately show ?thesis by simp
  qed
  have short: "?r - 1 \<le> length ws"
    using r Suc.prems(3) by simp
  have head: "take ?r (take m ws @ rest) = take ?r ws" "?r \<le> length (take m ws @ rest)"
    using r Suc.prems(3) by (simp_all add: min_def)
  have "list_all (\<lambda>(r, w). 1 \<le> r \<and> r \<le> length w \<and> take r w = take r ws)
      (turns E ps n (process_product E (take m ws @ rest) ?r))"
    unfolding process_product_prefix [OF r Suc.prems(3)]
    using Suc.IH [of "?r - 1"] n below short by simp
  then show ?case
    using head r by simp
qed

lemma products_sorted: "sorted_wrt (<) (products ws)"
  by (simp add: products_def sorted_wrt_filter del: upt_Suc)

lemma products_range: "p \<in> set (products ws) \<Longrightarrow> 1 \<le> p \<and> p \<le> length ws"
  by (auto simp: products_def FIRST_DATA_ROW_def simp del: upt_Suc)

lemma products_short: "length ws < HEADER_ROW \<Longrightarrow> products ws = []"
  by (simp add: products_def FIRST_DATA_ROW_def HEADER_ROW_def)

lemma process_worksheet_loop:
  "process_worksheet E ws = products_loop E (products ws) (length (products ws)) ws"
  by (simp add: process_worksheet_def Let_def products_short)

lemma process_worksheet_interleaved: "process_worksheet E ws = interleaved E ws"
proof -
  have "products_loop E (products ws) (length (products ws)) ws
      = foldl (process_product E) (take (length ws) ws @ []) (rev (products ws))"
    by (simp add: products_loop_foldl)
  also have "\<dots> = interleaved_upto E ws (products ws) (length ws) @ []"
    using products_sorted products_range by (intro loop_interleaves) auto
  finally show ?thesis
    by (simp add: process_worksheet_loop interleaved_def)
qed

lemma length_interleaved_upto:
  "length (interleaved_upto E ws ps n) = n + 2 * length (filter (\<lambda>r. r \<in> set ps) [1..<Suc n])"
  by (induction n) (simp_all add: interleaved_upto_def)

lemma filter_member_sorted:
  assumes "sorted_wrt (<) ps" and "\<And>p. p \<in> set ps \<Longrightarrow> 1 \<le> p"
  shows "filter (\<lambda>i. i \<in> set ps) [1..<r] = filter (\<lambda>p. p < r) ps"
proof (rule sorted_distinct_set_unique)
  show "sorted (filter (\<lambda>i. i \<in> set ps) [1..<r])" by (simp add: sorted_wrt_filter)
  show "distinct (filter (\<lambda>i. i \<in> set ps) [1..<r])" by simp
  show "sorted (filter (\<lambda>p. p < r) ps)"
    using assms(1) by (simp add: strict_sorted_iff sorted_wrt_filter)
  show "distinct (filter (\<lambda>p. p < r) ps)"
    using assms(1) by (simp add: strict_sorted_iff)
  show "set (filter (\<lambda>i. i \<in> set ps) [1..<r]) = set (filter (\<lambda>p. p < r) ps)"
    using assms(2) by auto
qed

lemma interleaved_upto_nth:
  assumes "1 \<le> r" and "r \<le> n"
  shows "interleaved_upto E ws ps n ! (r - 1 + 2 * length (filter (\<lambda>i. i \<in> set ps) [1..<r]))
      = ws ! (r - 1)"
    and "r \<in> set ps \<Longrightarrow>
      interleaved_upto E ws ps n ! (r + 2 * length (filter (\<lambda>i. i \<in> set ps) [1..<r]))
        = web_row E ws r"
    and "r \<in> set ps \<Longrightarrow>
      interleaved_upto E ws ps n ! (r + 1 + 2 * length (filter (\<lambda>i. i \<in> set ps) [1..<r]))
        = cmp_row E ws r"
proof -
  have len: "length (interleaved_upto E ws ps (r - 1))
      = r - 1 + 2 * length (filter (\<lambda>i. i \<in> set ps) [1..<r])"
    using assms(1) length_interleaved_upto [of E ws ps "r - 1"] by simp
  note split = interleaved_upto_split [OF assms, of E ws ps]
  show "interleaved_upto E ws ps n ! (r - 1 + 2 * length (filter (\<lambda>i. i \<in> set ps) [1..<r]))
      = ws ! (r - 1)"
    unfolding split len [symmetric] by (simp add: nth_append)
  have one: "r + 2 * length (filter (\<lambda>i. i \<in> set ps) [1..<r])
      = length (interleaved_upto E ws ps (r - 1)) + 1"
    and two: "r + 1 + 2 * length (filter (\<lambda>i. i \<in> set ps) [1..<r])
      = length (interleaved_upto E ws ps (r - 1)) + 2"
    using assms(1) len by simp_all
  show "interleaved_upto E ws ps n ! (r + 2 * length (filter (\<lambda>i. i \<in> set ps) [1..<r]))
      = web_row E ws r" if "r \<in> set ps"
    unfolding split one using that by (simp add: nth_append)
  show "interleaved_upto E ws ps n ! (r + 1 + 2 * length (filter (\<lambda>i. i \<in> set ps) [1..<r]))
      = cmp_row E ws r" if "r \<in> set ps"
    unfolding split two using that by (simp add: nth_append)
qed


lemma products_count: "length (filter (\<lambda>r. r \<in> set (products ws)) [1..<Suc (length ws)])
    = length (products ws)"
proof -
  have "filter (\<lambda>i. i \<in> set (products ws)) [1..<Suc (length ws)]
      = filter (\<lambda>p. p < Suc (length ws)) (products ws)"
    using products_sorted products_range by (intro filter_member_sorted) auto
  also have "\<dots> = products ws"
    using products_range [of _ ws] by (intro filter_True) (auto simp: less_Suc_eq_le)
  finally show ?thesis by simp
qed

lemma products_before: "filter (\<lambda>i. i \<in> set (products ws)) [1..<r]
    = filter (\<lambda>p. p < r) (products ws)"
  using products_sorted products_range by (intro filter_member_sorted) auto

lemma demo_products: "products demo_sheet = [4, 5]"
  by (simp add: products_def anyValue_def getCell_value_def FIRST_DATA_ROW_def demo_sheet_def
      demo_row_def blank_row_def blank_cell_def trim_def is_space_def)

lemmas pass_defs = product_writes_def demo_env_def demo_sheet_def demo_row_def getCell_value_def
  blank_row_def blank_cell_def compareText_def comparePartNo_def compareWeight_def
  compareDimensions_def normalizeWeightToKg_def toNumber_def cleanNumberString_def
  parseDimensionsToLBH_def mapMaterialClassificationToExcel_def normPartNo_def num_truthy_def

lemma demo_rows:
  "cval (web_row demo_env demo_sheet 4 ''Z'') = JStr (js ''A2V1'')
   \<and> cval (web_row demo_env demo_sheet 4 ''U'') = JNull
   \<and> cval (cmp_row demo_env demo_sheet 4 ''Z'') = JStr (js ''identisch'')
   \<and> cfill (cmp_row demo_env demo_sheet 4 ''Z'') = Some (statusCellFill GREEN)
   \<and> cval (cmp_row demo_env demo_sheet 4 ''E'') = JStr (js ''Beide fehlen'')
   \<and> cfill (cmp_row demo_env demo_sheet 4 ''E'') = Some (statusCellFill ORANGE)"
  by (simp add: web_row_def cmp_row_def pass_defs Let_def string_defs regex_defs)

lemma process_worksheet_length:
  "length (process_worksheet E ws) = length ws + 2 * length (products ws)"
  unfolding process_worksheet_interleaved interleaved_def length_interleaved_upto
    products_count ..

lemma data_region_length:
  "length (data_region (process_worksheet E ws))
     = length (data_region ws) + 2 * length (products ws)"
proof (cases "length ws < HEADER_ROW")
  case True
  then show ?thesis
    by (simp add: data_region_def process_worksheet_length products_short)
next
  case False
  then show ?thesis
    by (simp add: data_region_def process_worksheet_length HEADER_ROW_def FIRST_DATA_ROW_def)
qed

lemma gap_products: "products gap_sheet = [4, 6]"
  by (simp add: products_def anyValue_def getCell_value_def FIRST_DATA_ROW_def gap_sheet_def
      demo_row_def blank_row_def blank_cell_def trim_def is_space_def)

text \<open>
  C3, as the specification states it, fails in its row count: the region from the first
  data row to the last also holds the rows that are no product rows. On a worksheet with
  a blank row between its two product rows the region holds 7 rows after the pass, not
  3 * 2.
\<close>

theorem processed_region_count_counterexample:
  "length (products gap_sheet) = 2
   \<and> length (data_region gap_sheet) = 3
   \<and> length (data_region (process_worksheet demo_env gap_sheet)) = 7
   \<and> length (data_region (process_worksheet demo_env gap_sheet))
       \<noteq> 3 * length (products gap_sheet)"
proof -
  have "length (data_region gap_sheet) = 3"
    by (simp add: data_region_def FIRST_DATA_ROW_def gap_sheet_def)
  then show ?thesis
    by (simp add: data_region_length gap_products)
qed

text \<open>
  C3, amended. The pass returns the original rows in their order, each product row
  followed by two rows that are built from a blank row (the web row and the comparison
  row): the worksheet and its data region grow by two rows per product row, so a region
  of \<open>N\<close> rows with \<open>M\<close> product rows holds \<open>N + 2M\<close> rows afterwards, which is \<open>3M\<close>
  when every row of the region is a product row. The original row \<open>r\<close> is found
  unchanged behind the \<open>2k\<close> rows inserted for the \<open>k\<close> product rows above it, and the
  web and comparison rows of a product row are the next two rows. One turn of the loop
  inserts its two rows at \<open>r + 1\<close> and \<open>r + 2\<close> and changes no other row.
\<close>

theorem process_worksheet_inserts_rows:
  "process_worksheet E ws = interleaved E ws
   \<and> length (process_worksheet E ws) = length ws + 2 * length (products ws)
   \<and> length (data_region (process_worksheet E ws))
       = length (data_region ws) + 2 * length (products ws)
   \<and> (length (products ws) = length (data_region ws) \<longrightarrow>
        length (data_region (process_worksheet E ws)) = 3 * length (products ws))
   \<and> (\<forall>r. 1 \<le> r \<and> r \<le> length ws \<longrightarrow>
        process_worksheet E ws ! (r - 1 + 2 * length (filter (\<lambda>p. p < r) (products ws)))
          = ws ! (r - 1))
   \<and> (\<forall>r. r \<in> set (products ws) \<longrightarrow>
        process_worksheet E ws ! (r + 2 * length (filter (\<lambda>p. p < r) (products ws)))
          = web_row E ws r
        \<and> process_worksheet E ws ! (r + 1 + 2 * length (filter (\<lambda>p. p < r) (products ws)))
          = cmp_row E ws r)
   \<and> (\<forall>w r. r \<le> length w \<longrightarrow>
        process_product E w r = take r w @ web_row E w r # cmp_row E w r # drop r w)"
proof -
  have eq: "process_worksheet E ws = interleaved_upto E ws (products ws) (length ws)"
    by (simp add: process_worksheet_interleaved interleaved_def)
  have len: "length (process_worksheet E ws) = length ws + 2 * length (products ws)"
    unfolding eq length_interleaved_upto products_count ..
  have orig: "process_worksheet E ws ! (r - 1 + 2 * length (filter (\<lambda>p. p < r) (products ws)))
      = ws ! (r - 1)" if "1 \<le> r \<and> r \<le> length ws" for r
    using that interleaved_upto_nth(1) [of r "length ws" E ws "products ws"]
      products_before [of ws r]
    by (simp add: eq)
  have new: "process_worksheet E ws ! (r + 2 * length (filter (\<lambda>p. p < r) (products ws)))
        = web_row E ws r
      \<and> process_worksheet E ws ! (r + 1 + 2 * length (filter (\<lambda>p. p < r) (products ws)))
        = cmp_row E ws r" if "r \<in> set (products ws)" for r
    using that products_range [OF that]
      interleaved_upto_nth(2,3) [of r "length ws" "products ws" E ws]
      products_before [of ws r]
    by (simp add: eq)
  show ?thesis
    using len orig new data_region_length [of E ws]
    by (simp add: process_worksheet_interleaved process_product_eq)
qed

theorem process_worksheet_inserts_rows_witness:
  "products demo_sheet = [4, 5]
   \<and> length (process_worksheet demo_env demo_sheet) = 9
   \<and> length (products demo_sheet) = length (data_region demo_sheet)
   \<and> length (data_region (process_worksheet demo_env demo_sheet)) = 6
   \<and> process_worksheet demo_env demo_sheet ! 3 = demo_row ''a2v1''
   \<and> process_worksheet demo_env demo_sheet ! 4 = web_row demo_env demo_sheet 4
   \<and> process_worksheet demo_env demo_sheet ! 5 = cmp_row demo_env demo_sheet 4
   \<and> process_worksheet demo_env demo_sheet ! 6 = demo_row ''a2v2''
   \<and> process_worksheet demo_env demo_sheet ! 7 = web_row demo_env demo_sheet 5
   \<and> process_worksheet demo_env demo_sheet ! 8 = cmp_row demo_env demo_sheet 5
   \<and> cval ((process_worksheet demo_env demo_sheet ! 4) ''Z'') = JStr (js ''A2V1'')
   \<and> cval ((process_worksheet demo_env demo_sheet ! 5) ''Z'') = JStr (js ''identisch'')
   \<and> cfill ((process_worksheet demo_env demo_sheet ! 5) ''Z'') = Some (statusCellFill GREEN)"
proof -
  note t = process_worksheet_inserts_rows [of demo_env demo_sheet]
  have len: "length demo_sheet = 5"
    by (simp add: demo_sheet_def)
  have rows: "demo_sheet ! 3 = demo_row ''a2v1''" "demo_sheet ! 4 = demo_row ''a2v2''"
    by (simp_all add: demo_sheet_def)
  have region: "length (data_region demo_sheet) = 2"
    by (simp add: data_region_def FIRST_DATA_ROW_def demo_sheet_def)
  from t have "length (process_worksheet demo_env demo_sheet)
      = length demo_sheet + 2 * length (products demo_sheet)"
    by blast
  moreover from t have "length (products demo_sheet) = length (data_region demo_sheet) \<longrightarrow>
      length (data_region (process_worksheet demo_env demo_sheet))
        = 3 * length (products demo_sheet)"
    by blast
  moreover from t have "1 \<le> (4::nat) \<and> 4 \<le> length demo_sheet \<longrightarrow>
      process_worksheet demo_env demo_sheet
        ! (4 - 1 + 2 * length (filter (\<lambda>p. p < 4) (products demo_sheet))) = demo_sheet ! (4 - 1)"
    by blast
  moreover from t have "1 \<le> (5::nat) \<and> 5 \<le> length demo_sheet \<longrightarrow>
      process_worksheet demo_env demo_sheet
        ! (5 - 1 + 2 * length (filter (\<lambda>p. p < 5) (products demo_sheet))) = demo_sheet ! (5 - 1)"
    by blast
  moreover from t have "4 \<in> set (products demo_sheet) \<longrightarrow>
      process_worksheet demo_env demo_sheet
        ! (4 + 2 * length (filter (\<lambda>p. p < 4) (products demo_sheet))) = web_row demo_env demo_sheet 4
      \<and> process_worksheet demo_env demo_sheet
        ! (4 + 1 + 2 * length (filter (\<lambda>p. p < 4) (products demo_sheet))) = cmp_row demo_env demo_sheet 4"
    by blast
  moreover from t have "5 \<in> set (products demo_sheet) \<longrightarrow>
      process_worksheet demo_env demo_sheet
        ! (5 + 2 * length (filter (\<lambda>p. p < 5) (products demo_sheet))) = web_row demo_env demo_sheet 5
      \<and> process_worksheet demo_env demo_sheet
        ! (5 + 1 + 2 * length (filter (\<lambda>p. p < 5) (products demo_sheet))) = cmp_row demo_env demo_sheet 5"
    by blast
  ultimately show ?thesis
    using demo_rows by (simp add: demo_products len rows region)
qed

text \<open>
  C4. The list of product rows is computed once, from the worksheet as it is before any
  insertion, and the loop only reads that list. The turns take the row numbers in
  strictly descending order, and when a turn for the row number \<open>r\<close> starts, the rows
  1 to \<open>r\<close> of the worksheet are still those of the original worksheet: \<open>r\<close> addresses
  the original row, and every row inserted so far lies below it, at a higher row number.
\<close>

theorem products_frozen_and_descending:
  "process_worksheet E ws = products_loop E (products ws) (length (products ws)) ws
   \<and> products_loop E (products ws) (length (products ws)) ws
       = foldl (process_product E) ws
           (map fst (turns E (products ws) (length (products ws)) ws))
   \<and> map fst (turns E (products ws) (length (products ws)) ws) = rev (products ws)
   \<and> sorted_wrt (>) (rev (products ws))
   \<and> list_all (\<lambda>(r, w). 1 \<le> r \<and> r \<le> length w \<and> take r w = take r ws
                          \<and> w ! (r - 1) = ws ! (r - 1))
        (turns E (products ws) (length (products ws)) ws)"
proof -
  let ?ps = "products ws"
  have order: "map fst (turns E ?ps (length ?ps) ws) = rev ?ps"
    by (simp add: turns_order)
  have loop: "products_loop E ?ps (length ?ps) ws
      = foldl (process_product E) ws (map fst (turns E ?ps (length ?ps) ws))"
    by (simp add: order products_loop_foldl)
  have desc: "sorted_wrt (>) (rev ?ps)"
    using products_sorted [of ws] by (simp add: sorted_wrt_rev)
  have "list_all (\<lambda>(r, w). 1 \<le> r \<and> r \<le> length w \<and> take r w = take r ws)
      (turns E ?ps (length ?ps) (take (length ws) ws @ []))"
    using products_sorted [of ws] products_range [of _ ws]
    by (intro turns_prefix) auto
  then have prefix: "list_all (\<lambda>(r, w). 1 \<le> r \<and> r \<le> length w \<and> take r w = take r ws)
      (turns E ?ps (length ?ps) ws)"
    by simp
  have same_row: "w ! (r - 1) = ws ! (r - 1)" if "1 \<le> r" and "take r w = take r ws" for r w
  proof -
    have "w ! (r - 1) = take r w ! (r - 1)"
      using that(1) by simp
    also have "\<dots> = take r ws ! (r - 1)"
      using that(2) by simp
    also have "\<dots> = ws ! (r - 1)"
      using that(1) by simp
    finally show ?thesis .
  qed
  have inv: "list_all (\<lambda>(r, w). 1 \<le> r \<and> r \<le> length w \<and> take r w = take r ws
      \<and> w ! (r - 1) = ws ! (r - 1)) (turns E ?ps (length ?ps) ws)"
    unfolding list_all_iff
  proof (clarify, intro conjI)
    fix r w
    assume "(r, w) \<in> set (turns E ?ps (length ?ps) ws)"
    with prefix have turn: "1 \<le> r \<and> r \<le> length w \<and> take r w = take r ws"
      by (auto simp: list_all_iff)
    then show "1 \<le> r" and "r \<le> length w" and "take r w = take r ws"
      by blast+
    from turn show "w ! (r - 1) = ws ! (r - 1)"
      using same_row by blast
  qed
  show ?thesis
    using process_worksheet_loop [of E ws] order loop desc inv by blast
qed

theorem products_frozen_and_descending_witness:
  "products demo_sheet = [4, 5]
   \<and> map fst (turns demo_env (products demo_sheet) (length (products demo_sheet)) demo_sheet)
       = [5, 4]
   \<and> process_worksheet demo_env demo_sheet
       = process_product demo_env (process_product demo_env demo_sheet 5) 4"
  using products_frozen_and_descending [of demo_env demo_sheet]
  by (simp add: demo_products)

end
